theory Spec2Isabelle
  imports Main "HOL-Library.Word" "HOL-Library.Monad_Syntax"
begin

unbundle bit_operations_syntax

section \<open>STM32F3 UART smoke test: the firmware of test-c/main.c\<close>

text \<open>
  The program drives memory-mapped registers of three peripherals (RCC, GPIOA/GPIOE,
  USART1) and keeps one variable of its own, \<open>button_is_pressed\<close>. Every register is a
  \<open>uint32_t\<close>, modelled as a 32-bit word. The \<open>int\<close> constants of the macros
  (\<open>1 << 17\<close>, \<open>~(3 << 18)\<close>, ...) are converted to \<open>uint32_t\<close> by the compound assignments
  that use them, so they are written as 32-bit words directly.
\<close>

type_synonym u32 = "32 word"

subsection \<open>Bit masks (lines 16-19 and 36-39)\<close>

definition RCC_AHBENR_GPIOAEN :: u32 where
  "RCC_AHBENR_GPIOAEN = push_bit 17 1"

definition RCC_AHBENR_GPIOEEN :: u32 where
  "RCC_AHBENR_GPIOEEN = push_bit 21 1"

definition RCC_APB2ENR_USART1EN :: u32 where
  "RCC_APB2ENR_USART1EN = push_bit 14 1"

definition USART_CR1_UE :: u32 where
  "USART_CR1_UE = push_bit 0 1"

definition USART_CR1_TE :: u32 where
  "USART_CR1_TE = push_bit 3 1"

definition USART_ISR_TXE :: u32 where
  "USART_ISR_TXE = push_bit 7 1"

subsection \<open>The hardware state\<close>

text \<open>
  The registers the program stores to behave as memory cells: a read returns the last
  value stored. \<open>USART1_TDR\<close> is write-only, and every store to it puts one character on
  the wire, so its field holds the sequence of values stored so far, oldest first: the
  UART's outgoing stream.

  \<open>USART1_ISR\<close> is driven by the peripheral, not by the program: each \<open>volatile\<close> read may
  return a different value. \<open>USART1_ISR_reads h n\<close> is the value the \<open>n\<close>-th read returns
  and \<open>isr_pos h\<close> counts the reads done so far. \<open>GPIOA_IDR\<close>, the other input register,
  is read once per iteration of the main loop; the values it returns are the argument
  of the loop.
\<close>

record hw =
  RCC_AHBENR :: u32
  RCC_APB2ENR :: u32
  GPIOA_MODER :: u32
  GPIOA_AFRH :: u32
  GPIOE_MODER :: u32
  GPIOE_ODR :: u32
  USART1_BRR :: u32
  USART1_CR1 :: u32
  USART1_TDR :: "u32 list"
  USART1_ISR_reads :: "nat \<Rightarrow> u32"
  isr_pos :: nat

subsection \<open>The UART transmit driver (lines 41-53)\<close>

text \<open>
  \<open>uart_putc\<close>: spin until a read of \<open>USART1_ISR\<close> has the TXE bit set, then store the
  character to \<open>USART1_TDR\<close>. The wait has no bound, so the function is partial: \<open>None\<close>
  is the run that spins forever. \<open>char\<close> is unsigned on the ARM target, so the store
  zero-extends the character (\<open>of_char\<close>).
\<close>

partial_function (option) uart_putc :: "char \<Rightarrow> hw \<Rightarrow> hw option" where
  "uart_putc c h =
     (if USART1_ISR_reads h (isr_pos h) AND USART_ISR_TXE = 0
      then uart_putc c (h\<lparr>isr_pos := Suc (isr_pos h)\<rparr>)
      else Some (h\<lparr>isr_pos := Suc (isr_pos h),
                   USART1_TDR := USART1_TDR h @ [of_char c]\<rparr>))"

declare uart_putc.simps [code]

text \<open>
  \<open>uart_puts\<close>: the argument is the character array \<open>s\<close> points to, without the
  terminating NUL that ends it; the loop test \<open>*s\<close> stops at the end of the array (that
  NUL) and at a NUL inside it.
\<close>

fun uart_puts :: "string \<Rightarrow> hw \<Rightarrow> hw option" where
  "uart_puts [] h = Some h"
| "uart_puts (c # s) h =
     (if c = CHR 0x00 then Some h
      else do {
        h1 \<leftarrow> (if c = CHR ''\<newline>'' then uart_putc (CHR 0x0D) h else Some h);
        h2 \<leftarrow> uart_putc c h1;
        uart_puts s h2
      })"

subsection \<open>main: peripheral bring-up (lines 56-77)\<close>

text \<open>Lines 57-58: enable the clocks of GPIOA, GPIOE and USART1.\<close>

definition enable_clocks :: "hw \<Rightarrow> hw" where
  "enable_clocks h =
     h\<lparr>RCC_AHBENR := RCC_AHBENR h OR (RCC_AHBENR_GPIOAEN OR RCC_AHBENR_GPIOEEN),
       RCC_APB2ENR := RCC_APB2ENR h OR RCC_APB2ENR_USART1EN\<rparr>"

text \<open>Lines 62-68: PA9 as alternate function AF7 (USART1_TX).\<close>

definition configure_pa9 :: "hw \<Rightarrow> hw" where
  "configure_pa9 h =
     h\<lparr>GPIOA_MODER := (GPIOA_MODER h AND NOT (push_bit (9 * 2) 3)) OR push_bit (9 * 2) 2,
       GPIOA_AFRH := (GPIOA_AFRH h AND NOT (push_bit 4 0xF)) OR push_bit 4 7\<rparr>"

text \<open>Lines 71-72: PE9 (the LED) as output.\<close>

definition configure_pe9 :: "hw \<Rightarrow> hw" where
  "configure_pe9 h =
     h\<lparr>GPIOE_MODER := (GPIOE_MODER h AND NOT (push_bit (9 * 2) 3)) OR push_bit (9 * 2) 1\<rparr>"

text \<open>Lines 76-77: baud rate and control register of USART1, both plain stores.\<close>

definition configure_usart1 :: "hw \<Rightarrow> hw" where
  "configure_usart1 h =
     h\<lparr>USART1_BRR := 69, USART1_CR1 := USART_CR1_TE OR USART_CR1_UE\<rparr>"

definition bring_up :: "hw \<Rightarrow> hw" where
  "bring_up h = configure_usart1 (configure_pe9 (configure_pa9 (enable_clocks h)))"

subsection \<open>main: greeting, LED and the polling loop (lines 79-99)\<close>

text \<open>
  The state of the loop: the local variable \<open>button_is_pressed\<close> (a C \<open>int\<close> that only
  ever holds 0 or 1, so no overflow is involved) and the hardware.
\<close>

record loop_state =
  button_is_pressed :: int
  regs :: hw

text \<open>Lines 56-86: everything \<open>main\<close> does before it enters \<open>while (1)\<close>.\<close>

definition main_init :: "hw \<Rightarrow> loop_state option" where
  "main_init h = do {
     h1 \<leftarrow> uart_puts ''hello world!\<newline>'' (bring_up h);
     Some \<lparr>button_is_pressed = 0, regs = h1\<lparr>GPIOE_ODR := GPIOE_ODR h1 OR push_bit 9 1\<rparr>\<rparr>
   }"

text \<open>
  Lines 89-98: one iteration of the loop. \<open>idr\<close> is the value this iteration reads from
  \<open>GPIOA_IDR\<close>; \<open>button_state\<close> is its bit 0 as an \<open>int\<close>.
\<close>

definition main_loop_body :: "u32 \<Rightarrow> loop_state \<Rightarrow> loop_state option" where
  "main_loop_body idr s =
     (let button_state = uint (idr AND 1) in
      if button_is_pressed s = 0 \<and> button_state \<noteq> 0
      then Some (s\<lparr>button_is_pressed := 1\<rparr>)
      else if button_is_pressed s \<noteq> 0 \<and> button_state = 0
      then do {
        h1 \<leftarrow> uart_puts ''button pressed\<newline>'' (regs s);
        Some \<lparr>button_is_pressed = 0, regs = h1\<lparr>GPIOE_ODR := GPIOE_ODR h1 XOR push_bit 9 1\<rparr>\<rparr>
      }
      else Some s)"

text \<open>
  The loop never exits. \<open>main_loop idrs s\<close> runs its first \<open>length idrs\<close> iterations,
  the \<open>k\<close>-th of them reading \<open>idrs ! k\<close> from \<open>GPIOA_IDR\<close>.
\<close>

fun main_loop :: "u32 list \<Rightarrow> loop_state \<Rightarrow> loop_state option" where
  "main_loop [] s = Some s"
| "main_loop (idr # idrs) s = do { s1 \<leftarrow> main_loop_body idr s; main_loop idrs s1 }"

text \<open>
  What the string-send operation has to put on the wire for the characters \<open>s\<close>,
  in the words of the specification: a carriage return immediately before every line
  feed, every other character as it is.
\<close>

fun crlf_expanded :: "string \<Rightarrow> string" where
  "crlf_expanded [] = []"
| "crlf_expanded (c # s) =
     (if c = CHR ''\<newline>'' then CHR 0x0D # c # crlf_expanded s else c # crlf_expanded s)"

text \<open>
  The assumption on the UART under which the waits end: whatever has been read so far,
  a later read of \<open>USART1_ISR\<close> has TXE set.
\<close>

definition txe_recurs :: "hw \<Rightarrow> bool" where
  "txe_recurs h \<longleftrightarrow> (\<forall>n. \<exists>m\<ge>n. USART1_ISR_reads h m AND USART_ISR_TXE \<noteq> 0)"

subsection \<open>A concrete machine\<close>

text \<open>
  A hardware state to evaluate the program on: some clock and mode bits already set,
  nothing sent yet, and a UART that reports "transmit register empty" on every second
  read of its status register.
\<close>

definition example_hw :: hw where
  "example_hw = \<lparr>RCC_AHBENR = 0x14, RCC_APB2ENR = 0x1, GPIOA_MODER = 0xA8000000,
     GPIOA_AFRH = 0, GPIOE_MODER = 0, GPIOE_ODR = 0, USART1_BRR = 0, USART1_CR1 = 0x4,
     USART1_TDR = [], USART1_ISR_reads = (\<lambda>n. if even n then 0 else 0xC0), isr_pos = 0\<rparr>"

text \<open>The loop state in which \<open>main\<close> would enter the loop on it: Released.\<close>

definition example_state :: loop_state where
  "example_state = \<lparr>button_is_pressed = 0, regs = example_hw\<rparr>"

section \<open>The transmit driver\<close>

text \<open>
  A call of \<open>uart_putc\<close> that returns has appended its character to the outgoing stream
  and consumed some reads of the status register; it has touched nothing else.
\<close>

lemma uart_putc_effect:
  assumes "uart_putc c h = Some h'"
  shows "\<exists>p. h' = h\<lparr>isr_pos := p, USART1_TDR := USART1_TDR h @ [of_char c]\<rparr>"
proof (rule uart_putc.raw_induct
    [where P = "\<lambda>c h h'. \<exists>p. h' = h\<lparr>isr_pos := p, USART1_TDR := USART1_TDR h @ [of_char c]\<rparr>",
      OF _ assms])
  fix putc :: "char \<Rightarrow> hw \<Rightarrow> hw option" and c h h'
  assume IH: "\<And>c h y. putc c h = Some y \<Longrightarrow>
      \<exists>p. y = h\<lparr>isr_pos := p, USART1_TDR := USART1_TDR h @ [of_char c]\<rparr>"
  assume step: "(if USART1_ISR_reads h (isr_pos h) AND USART_ISR_TXE = 0
      then putc c (h\<lparr>isr_pos := Suc (isr_pos h)\<rparr>)
      else Some (h\<lparr>isr_pos := Suc (isr_pos h), USART1_TDR := USART1_TDR h @ [of_char c]\<rparr>)) = Some h'"
  show "\<exists>p. h' = h\<lparr>isr_pos := p, USART1_TDR := USART1_TDR h @ [of_char c]\<rparr>"
  proof (cases "USART1_ISR_reads h (isr_pos h) AND USART_ISR_TXE = 0")
    case True
    with step have "putc c (h\<lparr>isr_pos := Suc (isr_pos h)\<rparr>) = Some h'" by simp
    from IH[OF this] show ?thesis by simp
  next
    case False
    with step show ?thesis by auto
  qed
qed

text \<open>If some later read of the status register has TXE set, the wait ends.\<close>

lemma uart_putc_returns:
  "USART1_ISR_reads h (isr_pos h + k) AND USART_ISR_TXE \<noteq> 0 \<Longrightarrow> \<exists>h'. uart_putc c h = Some h'"
proof (induction k arbitrary: h)
  case 0
  then show ?case by (subst uart_putc.simps) simp
next
  case (Suc k)
  show ?case
  proof (cases "USART1_ISR_reads h (isr_pos h) AND USART_ISR_TXE = 0")
    case True
    from Suc.prems have "USART1_ISR_reads (h\<lparr>isr_pos := Suc (isr_pos h)\<rparr>) (isr_pos (h\<lparr>isr_pos := Suc (isr_pos h)\<rparr>) + k) AND USART_ISR_TXE \<noteq> 0"
      by simp
    from Suc.IH[OF this] obtain h' where "uart_putc c (h\<lparr>isr_pos := Suc (isr_pos h)\<rparr>) = Some h'" ..
    with True show ?thesis by (subst uart_putc.simps) simp
  next
    case False
    then show ?thesis by (subst uart_putc.simps) simp
  qed
qed

text \<open>The assumption on the UART does not depend on what the driver changes.\<close>

lemma txe_recurs_frame [simp]:
  "txe_recurs (h\<lparr>isr_pos := p, USART1_TDR := t\<rparr>) = txe_recurs h"
  by (simp add: txe_recurs_def)

lemma hw_unchanged:
  "\<exists>p. h = h\<lparr>isr_pos := p, USART1_TDR := USART1_TDR h @ map of_char []\<rparr>"
  by (rule exI[of _ "isr_pos h"]) simp

text \<open>Under the assumption on the UART, \<open>uart_putc\<close> returns.\<close>

lemma uart_putc_total:
  assumes "txe_recurs h"
  shows "\<exists>p. uart_putc c h = Some (h\<lparr>isr_pos := p, USART1_TDR := USART1_TDR h @ [of_char c]\<rparr>)"
proof -
  from assms obtain m where "m \<ge> isr_pos h" and "USART1_ISR_reads h m AND USART_ISR_TXE \<noteq> 0"
    unfolding txe_recurs_def by blast
  then have "USART1_ISR_reads h (isr_pos h + (m - isr_pos h)) AND USART_ISR_TXE \<noteq> 0"
    by simp
  from uart_putc_returns[OF this] obtain h' where h': "uart_putc c h = Some h'" ..
  from uart_putc_effect[OF h'] h' show ?thesis by auto
qed

text \<open>
  \<open>uart_puts\<close>, when it returns, has appended the expansion of the characters before the
  first NUL, and the hardware differs in nothing else but the count of status reads.
\<close>

lemma uart_puts_effect:
  "uart_puts s h = Some h' \<Longrightarrow>
     \<exists>p. h' = h\<lparr>isr_pos := p,
       USART1_TDR := USART1_TDR h @ map of_char (crlf_expanded (takeWhile (\<lambda>c. c \<noteq> CHR 0x00) s))\<rparr>"
proof (induction s arbitrary: h)
  case Nil
  then have "h' = h" by simp
  with hw_unchanged[of h] show ?case by simp
next
  case (Cons c s)
  show ?case
  proof (cases "c = CHR 0x00")
    case True
    with Cons.prems have "h' = h" by simp
    with True hw_unchanged[of h] show ?thesis by simp
  next
    case nz: False
    show ?thesis
    proof (cases "c = CHR ''\<newline>''")
      case True
      with nz Cons.prems obtain h1 h2 where 
        1: "uart_putc (CHR 0x0D) h = Some h1" and 2: "uart_putc c h1 = Some h2" and 3: "uart_puts s h2 = Some h'"
        by (auto split: bind_splits)
      from uart_putc_effect[OF 1] uart_putc_effect[OF 2] Cons.IH[OF 3] True nz
      show ?thesis by auto
    next
      case False
      with nz Cons.prems obtain h2 where 
        2: "uart_putc c h = Some h2" and 3: "uart_puts s h2 = Some h'"
        by (auto split: bind_splits)
      from uart_putc_effect[OF 2] Cons.IH[OF 3] False nz
      show ?thesis by auto
    qed
  qed
qed

lemma uart_puts_returns:
  "txe_recurs h \<Longrightarrow> \<exists>h'. uart_puts s h = Some h'"
proof (induction s arbitrary: h)
  case Nil
  show ?case by simp
next
  case (Cons c s)
  from uart_putc_total[OF Cons.prems, of "CHR 0x0D"] obtain p1 where 
    1: "uart_putc (CHR 0x0D) h = Some (h\<lparr>isr_pos := p1, USART1_TDR := USART1_TDR h @ [of_char (CHR 0x0D)]\<rparr>)"
    (is "_ = Some ?h1") ..
  have r1: "txe_recurs ?h1" using Cons.prems by simp
  from uart_putc_total[OF r1, of c] obtain h2 where
    2: "uart_putc c ?h1 = Some h2" and r2: "txe_recurs h2" using r1 by auto
  from uart_putc_total[OF Cons.prems, of c] obtain h3 where
    3: "uart_putc c h = Some h3" and r3: "txe_recurs h3" using Cons.prems by auto
  from Cons.IH[OF r2] Cons.IH[OF r3] 1 2 3 show ?case by auto
qed

lemma uart_puts_total:
  assumes "txe_recurs h"
  shows "\<exists>p. uart_puts s h = Some (h\<lparr>isr_pos := p,
       USART1_TDR := USART1_TDR h @ map of_char (crlf_expanded (takeWhile (\<lambda>c. c \<noteq> CHR 0x00) s))\<rparr>)"
proof -
  from uart_puts_returns[OF assms] obtain h' where h': "uart_puts s h = Some h'" ..
  from uart_puts_effect[OF h'] h' show ?thesis by auto
qed

section \<open>Bring-up, greeting and the polling loop\<close>

text \<open>The sampled button level is 0 or 1.\<close>

lemma button_state_cases: "(idr :: u32) AND 1 = 0 \<or> idr AND 1 = 1"
  by (simp add: and_one_eq mod_2_eq_odd)

text \<open>Bring-up leaves the transmit stream, the LED register and the status reads alone.\<close>

lemma bring_up_frame [simp]:
  "USART1_TDR (bring_up h) = USART1_TDR h"
  "GPIOE_ODR (bring_up h) = GPIOE_ODR h"
  "USART1_ISR_reads (bring_up h) = USART1_ISR_reads h"
  "isr_pos (bring_up h) = isr_pos h"
  by (simp_all add: bring_up_def configure_usart1_def configure_pe9_def configure_pa9_def enable_clocks_def)

lemma txe_recurs_bring_up [simp]: "txe_recurs (bring_up h) = txe_recurs h"
  by (simp add: txe_recurs_def)

lemma greeting_bytes:
  "crlf_expanded (takeWhile (\<lambda>c. c \<noteq> CHR 0x00) ''hello world!\<newline>'') = ''hello world!'' @ [CHR 0x0D, CHR ''\<newline>'']"
  by simp

lemma message_bytes:
  "crlf_expanded (takeWhile (\<lambda>c. c \<noteq> CHR 0x00) ''button pressed\<newline>'') = ''button pressed'' @ [CHR 0x0D, CHR ''\<newline>'']"
  by simp

lemma main_init_total:
  assumes "txe_recurs h"
  shows "\<exists>p. main_init h = Some \<lparr>button_is_pressed = 0,
      regs = (bring_up h)\<lparr>isr_pos := p,
        USART1_TDR := USART1_TDR h @ map of_char (''hello world!'' @ [CHR 0x0D, CHR ''\<newline>'']),
        GPIOE_ODR := GPIOE_ODR h OR push_bit 9 1\<rparr>\<rparr>"
proof -
  from assms have "txe_recurs (bring_up h)" by simp
  from uart_puts_total[OF this, of "''hello world!\<newline>''"] obtain p where
    "uart_puts ''hello world!\<newline>'' (bring_up h) = Some ((bring_up h)\<lparr>isr_pos := p,
        USART1_TDR := USART1_TDR h @ map of_char (''hello world!'' @ [CHR 0x0D, CHR ''\<newline>''])\<rparr>)"
    unfolding greeting_bytes by auto
  then show ?thesis unfolding main_init_def by (intro exI[of _ p]) simp
qed

text \<open>The four cases of one iteration: state Released or Pressed, sample low or high.\<close>

lemma body_press:
  "button_is_pressed s = 0 \<Longrightarrow> idr AND 1 = 1 \<Longrightarrow> main_loop_body idr s = Some (s\<lparr>button_is_pressed := 1\<rparr>)"
  by (simp add: main_loop_body_def)

lemma body_low_released:
  "button_is_pressed s = 0 \<Longrightarrow> idr AND 1 = 0 \<Longrightarrow> main_loop_body idr s = Some s"
  by (simp add: main_loop_body_def)

lemma body_high_pressed:
  "button_is_pressed s \<noteq> 0 \<Longrightarrow> idr AND 1 = 1 \<Longrightarrow> main_loop_body idr s = Some s"
  by (simp add: main_loop_body_def)

lemma body_release:
  assumes "button_is_pressed s \<noteq> 0" and "idr AND 1 = 0" and "txe_recurs (regs s)"
  shows "\<exists>p. main_loop_body idr s = Some \<lparr>button_is_pressed = 0,
      regs = (regs s)\<lparr>isr_pos := p,
        USART1_TDR := USART1_TDR (regs s) @ map of_char (''button pressed'' @ [CHR 0x0D, CHR ''\<newline>'']),
        GPIOE_ODR := GPIOE_ODR (regs s) XOR push_bit 9 1\<rparr>\<rparr>"
proof -
  from uart_puts_total[OF assms(3), of "''button pressed\<newline>''"] obtain p where
    "uart_puts ''button pressed\<newline>'' (regs s) = Some ((regs s)\<lparr>isr_pos := p,
        USART1_TDR := USART1_TDR (regs s) @ map of_char (''button pressed'' @ [CHR 0x0D, CHR ''\<newline>''])\<rparr>)"
    unfolding message_bytes by auto
  with assms(1,2) show ?thesis unfolding main_loop_body_def by (intro exI[of _ p]) simp
qed

text \<open>Runs of iterations.\<close>

lemma main_loop_append:
  "main_loop (xs @ ys) s = main_loop xs s \<bind> main_loop ys"
  by (induction xs arbitrary: s) (simp_all split: bind_splits)

lemma loop_lows_released:
  "button_is_pressed s = 0 \<Longrightarrow> \<forall>x\<in>set idrs. x AND 1 = 0 \<Longrightarrow> main_loop idrs s = Some s"
  by (induction idrs) (simp_all add: body_low_released)

lemma loop_highs_pressed:
  "button_is_pressed s \<noteq> 0 \<Longrightarrow> \<forall>x\<in>set idrs. x AND 1 = 1 \<Longrightarrow> main_loop idrs s = Some s"
  by (induction idrs) (simp_all add: body_high_pressed)

lemma loop_highs_released:
  assumes "button_is_pressed s = 0" and "\<forall>x\<in>set idrs. x AND 1 = 1" and "idrs \<noteq> []"
  shows "main_loop idrs s = Some (s\<lparr>button_is_pressed := 1\<rparr>)"
proof (cases idrs)
  case Nil
  with assms(3) show ?thesis by simp
next
  case (Cons x xs)
  with assms have "main_loop_body x s = Some (s\<lparr>button_is_pressed := 1\<rparr>)"
    by (simp add: body_press)
  moreover from Cons assms(2) have "main_loop xs (s\<lparr>button_is_pressed := 1\<rparr>) = Some (s\<lparr>button_is_pressed := 1\<rparr>)"
    by (intro loop_highs_pressed) simp_all
  ultimately show ?thesis using Cons by simp
qed

text \<open>The LED is bit 9 of \<open>GPIOE_ODR\<close>.\<close>

lemma led_bit_toggle: "bit ((w :: u32) XOR push_bit 9 1) 9 \<longleftrightarrow> \<not> bit w 9"
  by (simp add: bit_xor_iff bit_push_bit_iff)

lemma led_bit_set: "bit ((w :: u32) OR push_bit 9 1) n \<longleftrightarrow> n = 9 \<or> bit w n"
  unfolding bit_or_iff bit_push_bit_iff bit_1_iff by auto

lemma led_toggle_twice: "((w :: u32) XOR push_bit 9 1) XOR push_bit 9 1 = w"
  by (simp add: xor.assoc)

text \<open>Under the assumption on the UART every iteration completes.\<close>

lemma body_total:
  assumes "txe_recurs (regs s)"
  shows "\<exists>s'. main_loop_body idr s = Some s' \<and> txe_recurs (regs s')"
proof -
  consider (press) "button_is_pressed s = 0" "idr AND 1 = 1"
    | (low) "button_is_pressed s = 0" "idr AND 1 = 0"
    | (high) "button_is_pressed s \<noteq> 0" "idr AND 1 = 1"
    | (release) "button_is_pressed s \<noteq> 0" "idr AND 1 = 0"
    using button_state_cases[of idr] by blast
  then show ?thesis
  proof cases
    case press
    then show ?thesis using assms by (simp add: body_press)
  next
    case low
    then show ?thesis using assms by (simp add: body_low_released)
  next
    case high
    then show ?thesis using assms by (simp add: body_high_pressed)
  next
    case release
    from body_release[OF release assms] obtain p where
      "main_loop_body idr s = Some \<lparr>button_is_pressed = 0,
        regs = (regs s)\<lparr>isr_pos := p,
          USART1_TDR := USART1_TDR (regs s) @ map of_char (''button pressed'' @ [CHR 0x0D, CHR ''\<newline>'']),
          GPIOE_ODR := GPIOE_ODR (regs s) XOR push_bit 9 1\<rparr>\<rparr>" ..
    then show ?thesis using assms by (simp add: txe_recurs_def)
  qed
qed

lemma main_loop_total:
  "txe_recurs (regs s) \<Longrightarrow> \<exists>s'. main_loop idrs s = Some s'"
proof (induction idrs arbitrary: s)
  case Nil
  show ?case by simp
next
  case (Cons x xs)
  from body_total[OF Cons.prems, of x] obtain s1 where
    1: "main_loop_body x s = Some s1" and 2: "txe_recurs (regs s1)" by blast
  from Cons.IH[OF 2] 1 show ?case by simp
qed

text \<open>The flag after an iteration is the level that iteration sampled.\<close>

lemma body_flag:
  assumes "main_loop_body idr s = Some s'" and "button_is_pressed s = 0 \<or> button_is_pressed s = 1"
  shows "button_is_pressed s' = uint (idr AND 1)"
  using assms button_state_cases[of idr]
  by (auto simp add: main_loop_body_def split: if_splits bind_splits)

lemma body_flag_range:
  assumes "main_loop_body idr s = Some s'" and "button_is_pressed s = 0 \<or> button_is_pressed s = 1"
  shows "button_is_pressed s' = 0 \<or> button_is_pressed s' = 1"
  using body_flag[OF assms] button_state_cases[of idr] by auto

lemma loop_flag_range:
  "main_loop idrs s = Some s' \<Longrightarrow> button_is_pressed s = 0 \<or> button_is_pressed s = 1 \<Longrightarrow>
     button_is_pressed s' = 0 \<or> button_is_pressed s' = 1"
proof (induction idrs arbitrary: s)
  case Nil
  then show ?case by simp
next
  case (Cons x xs)
  from Cons.prems(1) obtain s1 where 1: "main_loop_body x s = Some s1" and 2: "main_loop xs s1 = Some s'"
    by (auto split: bind_splits)
  from Cons.IH[OF 2 body_flag_range[OF 1 Cons.prems(2)]] show ?case .
qed

lemma loop_flag:
  assumes "main_loop (idrs @ [idr]) s = Some s'" and "button_is_pressed s = 0 \<or> button_is_pressed s = 1"
  shows "button_is_pressed s' = uint (idr AND 1)"
proof -
  from assms(1) obtain s1 where 1: "main_loop idrs s = Some s1" and 2: "main_loop_body idr s1 = Some s'"
    by (auto simp add: main_loop_append split: bind_splits)
  from body_flag[OF 2 loop_flag_range[OF 1 assms(2)]] show ?thesis .
qed

lemma main_init_flag: "main_init h = Some s0 \<Longrightarrow> button_is_pressed s0 = 0"
  by (auto simp add: main_init_def split: bind_splits)

text \<open>
  A press-release cycle: samples that are low, then high (at least one), then low
  (at least one). From Released it sends the message once and inverts the LED once.
\<close>

lemma cycle_effect:
  assumes rel: "button_is_pressed s = 0" and txe: "txe_recurs (regs s)"
    and lo: "\<forall>x\<in>set lo. x AND 1 = 0"
    and hi: "\<forall>x\<in>set hi. x AND 1 = 1" "hi \<noteq> []"
    and lo': "\<forall>x\<in>set lo'. x AND 1 = 0" "lo' \<noteq> []"
  shows "\<exists>p. main_loop (lo @ hi @ lo') s = Some \<lparr>button_is_pressed = 0,
      regs = (regs s)\<lparr>isr_pos := p,
        USART1_TDR := USART1_TDR (regs s) @ map of_char (''button pressed'' @ [CHR 0x0D, CHR ''\<newline>'']),
        GPIOE_ODR := GPIOE_ODR (regs s) XOR push_bit 9 1\<rparr>\<rparr>"
proof -
  let ?s1 = "s\<lparr>button_is_pressed := 1\<rparr>"
  have 1: "main_loop lo s = Some s" using rel lo by (rule loop_lows_released)
  have 2: "main_loop hi s = Some ?s1" using rel hi by (rule loop_highs_released)
  from lo' obtain r rest where r: "lo' = r # rest" "r AND 1 = 0" "\<forall>x\<in>set rest. x AND 1 = 0"
    by (cases lo') auto
  have "button_is_pressed ?s1 \<noteq> 0" "txe_recurs (regs ?s1)" using txe by simp_all
  from body_release[OF this(1) r(2) this(2)] obtain p where
    3: "main_loop_body r ?s1 = Some \<lparr>button_is_pressed = 0,
      regs = (regs s)\<lparr>isr_pos := p,
        USART1_TDR := USART1_TDR (regs s) @ map of_char (''button pressed'' @ [CHR 0x0D, CHR ''\<newline>'']),
        GPIOE_ODR := GPIOE_ODR (regs s) XOR push_bit 9 1\<rparr>\<rparr>" (is "_ = Some ?s2")
    by auto
  have 4: "main_loop rest ?s2 = Some ?s2" using r(3) by (intro loop_lows_released) simp_all
  have "main_loop (lo @ hi @ lo') s = Some ?s2"
    unfolding main_loop_append r(1) using 1 2 3 4 by simp
  then show ?thesis by blast
qed

text \<open>The concrete machine satisfies the assumption on the UART.\<close>

lemma txe_recurs_example: "txe_recurs example_hw"
  unfolding txe_recurs_def
proof
  fix n
  have "n \<le> 2 * n + 1 \<and> USART1_ISR_reads example_hw (2 * n + 1) AND USART_ISR_TXE \<noteq> 0"
    by (simp add: example_hw_def USART_ISR_TXE_def)
  then show "\<exists>m\<ge>n. USART1_ISR_reads example_hw m AND USART_ISR_TXE \<noteq> 0" by blast
qed

section \<open>Properties of the program\<close>

subsection \<open>Bring-up\<close>

text \<open>
  C4. The value bring-up stores into \<open>USART1_BRR\<close> is the integer quotient of the assumed
  clock, 8000000 Hz, by the baud rate 115200, that is 69, whatever the hardware state
  before.
\<close>

theorem baud_divisor:
  "USART1_BRR (bring_up h) = of_nat (8000000 div 115200) \<and> USART1_BRR (bring_up h) = 69
   \<and> unat (USART1_BRR (bring_up h)) = 69"
  by (simp add: bring_up_def configure_usart1_def)

text \<open>The later bring-up steps do not touch the clock-control registers.\<close>

lemma RCC_frame:
  "RCC_AHBENR (bring_up h) = RCC_AHBENR (enable_clocks h)"
  "RCC_APB2ENR (bring_up h) = RCC_APB2ENR (enable_clocks h)"
  by (simp_all add: bring_up_def configure_usart1_def configure_pe9_def configure_pa9_def)

text \<open>
  C5. For every value of \<open>RCC_AHBENR\<close> and \<open>RCC_APB2ENR\<close> before it, the clock-enable step
  ORs the enable masks into them: bits 17 (GPIOA) and 21 (GPIOE) of \<open>RCC_AHBENR\<close> and
  bit 14 (USART1) of \<open>RCC_APB2ENR\<close> are set afterwards, every bit set before is still set,
  and the rest of bring-up leaves both registers as the step left them.
\<close>

theorem clock_enable_rmw:
  "RCC_AHBENR (enable_clocks h) = RCC_AHBENR h OR 0x220000
   \<and> RCC_APB2ENR (enable_clocks h) = RCC_APB2ENR h OR 0x4000
   \<and> bit (RCC_AHBENR (enable_clocks h)) 17
   \<and> bit (RCC_AHBENR (enable_clocks h)) 21
   \<and> bit (RCC_APB2ENR (enable_clocks h)) 14
   \<and> (\<forall>n. bit (RCC_AHBENR h) n \<longrightarrow> bit (RCC_AHBENR (enable_clocks h)) n)
   \<and> (\<forall>n. bit (RCC_APB2ENR h) n \<longrightarrow> bit (RCC_APB2ENR (enable_clocks h)) n)
   \<and> RCC_AHBENR (bring_up h) = RCC_AHBENR (enable_clocks h)
   \<and> RCC_APB2ENR (bring_up h) = RCC_APB2ENR (enable_clocks h)"
proof -
  have a: "RCC_AHBENR (enable_clocks h) = RCC_AHBENR h OR 0x220000"
    by (simp add: enable_clocks_def RCC_AHBENR_GPIOAEN_def RCC_AHBENR_GPIOEEN_def)
  have b: "RCC_APB2ENR (enable_clocks h) = RCC_APB2ENR h OR 0x4000"
    by (simp add: enable_clocks_def RCC_APB2ENR_USART1EN_def)
  have m: "bit (0x220000 :: u32) 17" "bit (0x220000 :: u32) 21" "bit (0x4000 :: u32) 14"
    by simp_all
  have c: "bit (RCC_AHBENR (enable_clocks h)) 17" "bit (RCC_AHBENR (enable_clocks h)) 21"
    unfolding a by (simp_all only: bit_or_iff m simp_thms)
  have d: "bit (RCC_APB2ENR (enable_clocks h)) 14"
    unfolding b by (simp only: bit_or_iff m simp_thms)
  have e: "\<forall>n. bit (RCC_AHBENR h) n \<longrightarrow> bit (RCC_AHBENR (enable_clocks h)) n"
    unfolding a by (simp add: bit_or_iff)
  have f: "\<forall>n. bit (RCC_APB2ENR h) n \<longrightarrow> bit (RCC_APB2ENR (enable_clocks h)) n"
    unfolding b by (simp add: bit_or_iff)
  show ?thesis by (intro conjI) (rule a b c d e f RCC_frame)+
qed

theorem clock_enable_rmw_witness:
  "bit (RCC_AHBENR example_hw) 2 \<and> bit (RCC_AHBENR (enable_clocks example_hw)) 2
   \<and> bit (RCC_APB2ENR example_hw) 0 \<and> bit (RCC_APB2ENR (enable_clocks example_hw)) 0"
proof -
  note t = clock_enable_rmw [of example_hw]
  have 1: "bit (RCC_AHBENR example_hw) 2" by (simp add: example_hw_def)
  have 2: "bit (RCC_APB2ENR example_hw) 0" by (simp add: example_hw_def)
  from t 1 have 3: "bit (RCC_AHBENR (enable_clocks example_hw)) 2" by blast
  from t 2 have 4: "bit (RCC_APB2ENR (enable_clocks example_hw)) 0" by blast
  from 1 2 3 4 show ?thesis by simp
qed

text \<open>
  C9. The store to \<open>USART1_CR1\<close> is a plain store: whatever the register held, after
  bring-up it is \<open>USART_CR1_TE | USART_CR1_UE = 0x9\<close>, so its set bits are exactly bit 0
  (UE) and bit 3 (TE) and no other bit set before survives.
\<close>

theorem cr1_plain_store:
  "USART1_CR1 (bring_up h) = USART_CR1_TE OR USART_CR1_UE
   \<and> USART1_CR1 (bring_up h) = 0x9
   \<and> (bit (USART1_CR1 (bring_up h)) n \<longleftrightarrow> n = 0 \<or> n = 3)"
proof -
  have a: "USART1_CR1 (bring_up h) = USART_CR1_TE OR USART_CR1_UE"
    by (simp add: bring_up_def configure_usart1_def)
  have b: "USART_CR1_TE OR USART_CR1_UE = 0x9"
    by (simp add: USART_CR1_TE_def USART_CR1_UE_def)
  have c: "bit (USART_CR1_TE OR USART_CR1_UE) n \<longleftrightarrow> n = 0 \<or> n = 3"
    unfolding USART_CR1_TE_def USART_CR1_UE_def bit_or_iff bit_push_bit_iff bit_1_iff
    by auto
  from a b c show ?thesis by simp
qed

theorem cr1_plain_store_witness:
  "bit (USART1_CR1 example_hw) 2 \<and> \<not> bit (USART1_CR1 (bring_up example_hw)) 2
   \<and> USART1_CR1 (bring_up example_hw) = 9"
proof -
  have 1: "bit (USART1_CR1 example_hw) 2" by (simp add: example_hw_def)
  note t = cr1_plain_store [of example_hw 2]
  from t have 3: "USART1_CR1 (bring_up example_hw) = 9" by (elim conjE)
  from t have "bit (USART1_CR1 (bring_up example_hw)) 2 \<longleftrightarrow> (2 :: nat) = 0 \<or> (2 :: nat) = 3"
    by (elim conjE)
  then have 2: "\<not> bit (USART1_CR1 (bring_up example_hw)) 2" by simp
  from 1 2 3 show ?thesis by simp
qed

subsection \<open>The string-send operation\<close>

text \<open>
  C1. On a UART that keeps reporting TXE, \<open>uart_puts s\<close> returns, and it has appended to
  the outgoing stream exactly the characters of \<open>s\<close> up to its terminating NUL, in order,
  with one carriage return put immediately before every line feed and every other
  character unchanged; apart from the count of status reads nothing else in the
  hardware has changed.
\<close>

theorem uart_puts_crlf:
  assumes "txe_recurs h"
  shows "\<exists>p. uart_puts s h = Some (h\<lparr>isr_pos := p,
     USART1_TDR := USART1_TDR h @ map of_char (crlf_expanded (takeWhile (\<lambda>c. c \<noteq> CHR 0x00) s))\<rparr>)"
proof -
  from uart_puts_returns [OF assms] obtain h' where ret: "uart_puts s h = Some h'" ..
  from uart_puts_effect [OF ret] obtain p where
    "h' = h\<lparr>isr_pos := p,
       USART1_TDR := USART1_TDR h @ map of_char (crlf_expanded (takeWhile (\<lambda>c. c \<noteq> CHR 0x00) s))\<rparr>" ..
  with ret show ?thesis by blast
qed

theorem uart_puts_crlf_witness:
  "txe_recurs example_hw \<and>
   map_option USART1_TDR (uart_puts (''a'' @ [CHR ''\<newline>'', CHR 0x0D, CHR ''\<newline>''] @ ''b'') example_hw)
     = Some [97, 13, 10, 13, 13, 10, 98]"
  using uart_puts_crlf [OF txe_recurs_example, of "''a'' @ [CHR ''\<newline>'', CHR 0x0D, CHR ''\<newline>''] @ ''b''"]
    txe_recurs_example
  by (auto simp add: example_hw_def)

subsection \<open>Start-up\<close>

text \<open>
  C3. On a UART that keeps reporting TXE, bring-up followed by the transmission of the
  greeting (\<open>hello world!\<close> and a line feed) returns and has appended exactly the bytes
  \<open>h e l l o space w o r l d !\<close>, carriage return, line feed to the outgoing stream;
  \<open>main\<close> enters its loop with just these bytes sent, and as long as no release has
  happened (the samples are low, then high) the loop sends nothing more.
\<close>

theorem startup_bytes:
  assumes "txe_recurs h" and "\<forall>x\<in>set lo. x AND 1 = 0" and "\<forall>x\<in>set hi. x AND 1 = 1"
  shows "\<exists>p s0 s'.
      uart_puts ''hello world!\<newline>'' (bring_up h)
        = Some ((bring_up h)\<lparr>isr_pos := p,
            USART1_TDR := USART1_TDR h @ map of_char (''hello world!'' @ [CHR 0x0D, CHR ''\<newline>''])\<rparr>)
    \<and> main_init h = Some s0
    \<and> USART1_TDR (regs s0) = USART1_TDR h @ map of_char (''hello world!'' @ [CHR 0x0D, CHR ''\<newline>''])
    \<and> main_loop (lo @ hi) s0 = Some s'
    \<and> USART1_TDR (regs s') = USART1_TDR (regs s0)"
proof -
  from assms(1) have "txe_recurs (bring_up h)" by simp
  from uart_puts_total[OF this, of "''hello world!\<newline>''"] obtain p where
    1: "uart_puts ''hello world!\<newline>'' (bring_up h) = Some ((bring_up h)\<lparr>isr_pos := p,
        USART1_TDR := USART1_TDR h @ map of_char (''hello world!'' @ [CHR 0x0D, CHR ''\<newline>''])\<rparr>)"
    unfolding greeting_bytes by auto
  define s0 where "s0 = \<lparr>button_is_pressed = 0,
      regs = (bring_up h)\<lparr>isr_pos := p,
        USART1_TDR := USART1_TDR h @ map of_char (''hello world!'' @ [CHR 0x0D, CHR ''\<newline>'']),
        GPIOE_ODR := GPIOE_ODR h OR push_bit 9 1\<rparr>\<rparr>"
  have 2: "main_init h = Some s0" unfolding main_init_def s0_def using 1 by simp
  have 3: "USART1_TDR (regs s0) = USART1_TDR h @ map of_char (''hello world!'' @ [CHR 0x0D, CHR ''\<newline>''])"
    by (simp add: s0_def)
  have rel: "button_is_pressed s0 = 0" by (simp add: s0_def)
  have lo: "main_loop lo s0 = Some s0" using rel assms(2) by (rule loop_lows_released)
  have "\<exists>s'. main_loop hi s0 = Some s' \<and> regs s' = regs s0"
  proof (cases "hi = []")
    case True
    then show ?thesis by simp
  next
    case False
    from loop_highs_released[OF rel assms(3) False] show ?thesis by simp
  qed
  then obtain s' where 4: "main_loop hi s0 = Some s'" and 5: "regs s' = regs s0" by blast
  have 6: "main_loop (lo @ hi) s0 = Some s'" unfolding main_loop_append using lo 4 by simp
  from 1 2 3 5 6 show ?thesis by auto
qed

theorem startup_bytes_witness:
  "txe_recurs example_hw \<and> (0 :: u32) AND 1 = 0 \<and> (2 :: u32) AND 1 = 0
   \<and> (1 :: u32) AND 1 = 1 \<and> (3 :: u32) AND 1 = 1
   \<and> map_option (\<lambda>s. USART1_TDR (regs s)) (main_init example_hw)
      = Some [104, 101, 108, 108, 111, 32, 119, 111, 114, 108, 100, 33, 13, 10]
   \<and> map_option (\<lambda>s. USART1_TDR (regs s)) (main_init example_hw \<bind> main_loop ([0, 2] @ [1, 3]))
      = Some [104, 101, 108, 108, 111, 32, 119, 111, 114, 108, 100, 33, 13, 10]"
proof -
  have 1: "\<forall>x\<in>set [0, 2 :: u32]. x AND 1 = 0" by simp
  have 2: "\<forall>x\<in>set [1, 3 :: u32]. x AND 1 = 1" by simp
  have 3: "USART1_TDR example_hw = []" by (simp add: example_hw_def)
  from startup_bytes [OF txe_recurs_example 1 2] obtain s0 s' where
    "main_init example_hw = Some s0"
    "USART1_TDR (regs s0) = USART1_TDR example_hw @ map of_char (''hello world!'' @ [CHR 0x0D, CHR ''\<newline>''])"
    "main_loop ([0, 2] @ [1, 3]) s0 = Some s'"
    "USART1_TDR (regs s') = USART1_TDR (regs s0)" by blast
  then show ?thesis using txe_recurs_example 3 by simp
qed

text \<open>
  C10. After the greeting and before the loop, \<open>main\<close> ORs bit 9 into \<open>GPIOE_ODR\<close>: at
  loop entry the LED bit is set whatever the register held, every other bit is as it
  was, and the toggles start from this high level: low after the first press and
  release, high again after the second.
\<close>

theorem led_high_at_loop_entry:
  assumes "txe_recurs h" and "a AND 1 = 1" and "b AND 1 = 0"
  shows "\<exists>s0 s1 s2.
      main_init h = Some s0
    \<and> USART1_TDR (regs s0) = USART1_TDR h @ map of_char (''hello world!'' @ [CHR 0x0D, CHR ''\<newline>''])
    \<and> GPIOE_ODR (regs s0) = GPIOE_ODR h OR push_bit 9 1
    \<and> (\<forall>n. bit (GPIOE_ODR (regs s0)) n \<longleftrightarrow> n = 9 \<or> bit (GPIOE_ODR h) n)
    \<and> main_loop [a, b] s0 = Some s1 \<and> \<not> bit (GPIOE_ODR (regs s1)) 9
    \<and> main_loop [a, b] s1 = Some s2 \<and> bit (GPIOE_ODR (regs s2)) 9"
proof -
  from main_init_total[OF assms(1)] obtain s0 where 1: "main_init h = Some s0"
    and f0: "button_is_pressed s0 = 0" and t0: "txe_recurs (regs s0)"
    and tx: "USART1_TDR (regs s0) = USART1_TDR h @ map of_char (''hello world!'' @ [CHR 0x0D, CHR ''\<newline>''])"
    and o0: "GPIOE_ODR (regs s0) = GPIOE_ODR h OR push_bit 9 1"
    using assms(1) by (auto simp add: txe_recurs_def)
  have b0: "\<forall>n. bit (GPIOE_ODR (regs s0)) n \<longleftrightarrow> n = 9 \<or> bit (GPIOE_ODR h) n"
    unfolding o0 by (simp only: led_bit_set simp_thms)
  have c1: "\<forall>x\<in>set []. (x :: u32) AND 1 = 0" "\<forall>x\<in>set [a]. x AND 1 = 1" "[a] \<noteq> []"
    "\<forall>x\<in>set [b]. x AND 1 = 0" "[b] \<noteq> []" using assms by simp_all
  from cycle_effect[OF f0 t0 c1] obtain s1 where
    2: "main_loop [a, b] s0 = Some s1" and f1: "button_is_pressed s1 = 0"
    and t1: "txe_recurs (regs s1)" and o1: "GPIOE_ODR (regs s1) = GPIOE_ODR (regs s0) XOR push_bit 9 1"
    using t0 by (auto simp add: txe_recurs_def)
  from cycle_effect[OF f1 t1 c1] obtain s2 where
    3: "main_loop [a, b] s1 = Some s2"
    and o2: "GPIOE_ODR (regs s2) = GPIOE_ODR (regs s1) XOR push_bit 9 1"
    by auto
  have l0: "bit (GPIOE_ODR (regs s0)) 9" using b0 by simp
  have l1: "\<not> bit (GPIOE_ODR (regs s1)) 9" unfolding o1 using l0 by (simp only: led_bit_toggle simp_thms)
  have l2: "bit (GPIOE_ODR (regs s2)) 9" unfolding o2 using l1 by (simp only: led_bit_toggle simp_thms)
  from 1 tx o0 b0 2 l1 3 l2 show ?thesis by blast
qed

theorem led_high_at_loop_entry_witness:
  "txe_recurs example_hw \<and> (1 :: u32) AND 1 = 1 \<and> (0 :: u32) AND 1 = 0
   \<and> map_option (\<lambda>s. GPIOE_ODR (regs s)) (main_init example_hw) = Some 0x200
   \<and> map_option (\<lambda>s. bit (GPIOE_ODR (regs s)) 9) (main_init example_hw \<bind> main_loop [1, 0]) = Some False"
proof -
  have 1: "(1 :: u32) AND 1 = 1" "(0 :: u32) AND 1 = 0" by simp_all
  have 2: "GPIOE_ODR example_hw = 0" by (simp add: example_hw_def)
  from led_high_at_loop_entry [OF txe_recurs_example 1] obtain s0 s1 where
    "main_init example_hw = Some s0" "GPIOE_ODR (regs s0) = GPIOE_ODR example_hw OR push_bit 9 1"
    "main_loop [1, 0] s0 = Some s1" "\<not> bit (GPIOE_ODR (regs s1)) 9" by blast
  then show ?thesis using txe_recurs_example 1 2 by simp
qed

subsection \<open>The debounce state machine\<close>

text \<open>
  C2. From Released, on samples low, high, high, low: the first three iterations send
  nothing and leave the hardware as it is (the second only sets the flag), and the
  fourth, the release, sends \<open>button pressed\<close>, carriage return, line feed once, inverts the LED bit once and
  clears the flag.
\<close>

theorem debounce_0110:
  assumes "button_is_pressed s = 0" and "txe_recurs (regs s)"
    and "a AND 1 = 0" and "b AND 1 = 1" and "c AND 1 = 1" and "d AND 1 = 0"
  shows "main_loop [a] s = Some s
    \<and> main_loop [a, b] s = Some (s\<lparr>button_is_pressed := 1\<rparr>)
    \<and> main_loop [a, b, c] s = Some (s\<lparr>button_is_pressed := 1\<rparr>)
    \<and> (\<exists>p. main_loop [a, b, c, d] s = Some \<lparr>button_is_pressed = 0,
          regs = (regs s)\<lparr>isr_pos := p,
            USART1_TDR := USART1_TDR (regs s)
              @ map of_char (''button pressed'' @ [CHR 0x0D, CHR ''\<newline>'']),
            GPIOE_ODR := GPIOE_ODR (regs s) XOR push_bit 9 1\<rparr>\<rparr>)
    \<and> (bit (GPIOE_ODR (regs s) XOR push_bit 9 1) 9 \<longleftrightarrow> \<not> bit (GPIOE_ODR (regs s)) 9)"
proof -
  let ?s1 = "s\<lparr>button_is_pressed := 1\<rparr>"
  have 1: "main_loop_body a s = Some s" using assms by (simp add: body_low_released)
  have 2: "main_loop_body b s = Some ?s1" using assms by (simp add: body_press)
  have 3: "main_loop_body c ?s1 = Some ?s1" using assms by (simp add: body_high_pressed)
  have "button_is_pressed ?s1 \<noteq> 0" "txe_recurs (regs ?s1)" using assms(2) by simp_all
  from body_release[OF this(1) assms(6) this(2)] obtain p where
    4: "main_loop_body d ?s1 = Some \<lparr>button_is_pressed = 0,
          regs = (regs s)\<lparr>isr_pos := p,
            USART1_TDR := USART1_TDR (regs s)
              @ map of_char (''button pressed'' @ [CHR 0x0D, CHR ''\<newline>'']),
            GPIOE_ODR := GPIOE_ODR (regs s) XOR push_bit 9 1\<rparr>\<rparr>"
    by auto
  have A: "main_loop [a] s = Some s" using 1 by simp
  have B: "main_loop [a, b] s = Some ?s1" using 1 2 by simp
  have C: "main_loop [a, b, c] s = Some ?s1" using 1 2 3 by simp
  have D: "\<exists>p. main_loop [a, b, c, d] s = Some \<lparr>button_is_pressed = 0,
          regs = (regs s)\<lparr>isr_pos := p,
            USART1_TDR := USART1_TDR (regs s)
              @ map of_char (''button pressed'' @ [CHR 0x0D, CHR ''\<newline>'']),
            GPIOE_ODR := GPIOE_ODR (regs s) XOR push_bit 9 1\<rparr>\<rparr>"
    using 1 2 3 4 by (intro exI[of _ p]) simp
  show ?thesis by (intro conjI) (rule A B C D led_bit_toggle)+
qed

theorem debounce_0110_witness:
  "button_is_pressed example_state = 0 \<and> txe_recurs (regs example_state)
   \<and> (0 :: u32) AND 1 = 0 \<and> (1 :: u32) AND 1 = 1
   \<and> main_loop [0, 1, 1] example_state = Some (example_state\<lparr>button_is_pressed := 1\<rparr>)
   \<and> map_option (\<lambda>s. (button_is_pressed s, USART1_TDR (regs s), GPIOE_ODR (regs s)))
        (main_loop [0, 1, 1, 0] example_state)
      = Some (0, [98, 117, 116, 116, 111, 110, 32, 112, 114, 101, 115, 115, 101, 100, 13, 10], 0x200)"
proof -
  have h: "button_is_pressed example_state = 0" "txe_recurs (regs example_state)"
    "(0 :: u32) AND 1 = 0" "(1 :: u32) AND 1 = 1"
    using txe_recurs_example by (simp_all add: example_state_def)
  from debounce_0110 [OF h(1) h(2) h(3) h(4) h(4) h(3)] h show ?thesis
    by (auto simp add: example_state_def example_hw_def)
qed

text \<open>
  C7. A run of samples without an edge changes nothing: low samples from Released and
  high samples from Pressed leave the whole loop state as it is, so no message is sent,
  the LED is not toggled and the flag keeps its value.
\<close>

theorem no_edge_no_effect:
  "(button_is_pressed s = 0 \<and> (\<forall>x\<in>set idrs. x AND 1 = 0) \<longrightarrow> main_loop idrs s = Some s)
   \<and> (button_is_pressed s \<noteq> 0 \<and> (\<forall>x\<in>set idrs. x AND 1 = 1) \<longrightarrow> main_loop idrs s = Some s)"
  using loop_lows_released[of s idrs] loop_highs_pressed[of s idrs] by blast

theorem no_edge_no_effect_witness:
  "button_is_pressed example_state = 0 \<and> (0 :: u32) AND 1 = 0
   \<and> main_loop [0, 0, 0, 0] example_state = Some example_state
   \<and> button_is_pressed (example_state\<lparr>button_is_pressed := 1\<rparr>) \<noteq> 0
   \<and> (1 :: u32) AND 1 = 1
   \<and> main_loop [1, 1, 1, 1] (example_state\<lparr>button_is_pressed := 1\<rparr>)
       = Some (example_state\<lparr>button_is_pressed := 1\<rparr>)"
proof -
  have 1: "button_is_pressed example_state = 0" by (simp add: example_state_def)
  have 2: "\<forall>x\<in>set [0, 0, 0, 0 :: u32]. x AND 1 = 0" by simp
  have 3: "button_is_pressed (example_state\<lparr>button_is_pressed := 1\<rparr>) \<noteq> 0" by simp
  have 4: "\<forall>x\<in>set [1, 1, 1, 1 :: u32]. x AND 1 = 1" by simp
  from no_edge_no_effect [of example_state "[0, 0, 0, 0]"] 1 2
  have 5: "main_loop [0, 0, 0, 0] example_state = Some example_state" by blast
  from no_edge_no_effect [of "example_state\<lparr>button_is_pressed := 1\<rparr>" "[1, 1, 1, 1]"] 3 4
  have 6: "main_loop [1, 1, 1, 1] (example_state\<lparr>button_is_pressed := 1\<rparr>)
       = Some (example_state\<lparr>button_is_pressed := 1\<rparr>)" by blast
  have 7: "(0 :: u32) AND 1 = 0" "(1 :: u32) AND 1 = 1" by simp_all
  show ?thesis by (intro conjI) (rule 1 3 5 6 7)+
qed

text \<open>
  C6. Two press-release cycles in a row, from Released and from any value of the LED
  register: the first inverts the LED bit, the second brings the register back to its
  original value.
\<close>

theorem led_toggle_involution:
  assumes "button_is_pressed s = 0" and "txe_recurs (regs s)"
    and "\<forall>x\<in>set lo1. x AND 1 = 0" and "\<forall>x\<in>set hi1. x AND 1 = 1" and "hi1 \<noteq> []"
    and "\<forall>x\<in>set rel1. x AND 1 = 0" and "rel1 \<noteq> []"
    and "\<forall>x\<in>set lo2. x AND 1 = 0" and "\<forall>x\<in>set hi2. x AND 1 = 1" and "hi2 \<noteq> []"
    and "\<forall>x\<in>set rel2. x AND 1 = 0" and "rel2 \<noteq> []"
  shows "\<exists>s1 s2.
      main_loop (lo1 @ hi1 @ rel1) s = Some s1
    \<and> main_loop (lo2 @ hi2 @ rel2) s1 = Some s2
    \<and> main_loop ((lo1 @ hi1 @ rel1) @ (lo2 @ hi2 @ rel2)) s = Some s2
    \<and> GPIOE_ODR (regs s1) = GPIOE_ODR (regs s) XOR push_bit 9 1
    \<and> (bit (GPIOE_ODR (regs s1)) 9 \<longleftrightarrow> \<not> bit (GPIOE_ODR (regs s)) 9)
    \<and> GPIOE_ODR (regs s2) = GPIOE_ODR (regs s)"
proof -
  from cycle_effect[OF assms(1-7)] obtain s1 where
    1: "main_loop (lo1 @ hi1 @ rel1) s = Some s1" and f1: "button_is_pressed s1 = 0"
    and t1: "txe_recurs (regs s1)" and o1: "GPIOE_ODR (regs s1) = GPIOE_ODR (regs s) XOR push_bit 9 1"
    using assms(2) by (auto simp add: txe_recurs_def)
  from cycle_effect[OF f1 t1 assms(8-12)] obtain s2 where
    2: "main_loop (lo2 @ hi2 @ rel2) s1 = Some s2"
    and o2: "GPIOE_ODR (regs s2) = GPIOE_ODR (regs s1) XOR push_bit 9 1"
    by auto
  have 3: "main_loop ((lo1 @ hi1 @ rel1) @ (lo2 @ hi2 @ rel2)) s = Some s2"
    using 1 2 by (simp only: main_loop_append[of "lo1 @ hi1 @ rel1"] bind.bind_lunit)
  have 4: "bit (GPIOE_ODR (regs s1)) 9 \<longleftrightarrow> \<not> bit (GPIOE_ODR (regs s)) 9"
    unfolding o1 by (rule led_bit_toggle)
  have 5: "GPIOE_ODR (regs s2) = GPIOE_ODR (regs s)"
    unfolding o2 o1 by (rule led_toggle_twice)
  from 1 2 3 o1 4 5 show ?thesis by blast
qed

theorem led_toggle_involution_witness:
  "button_is_pressed example_state = 0 \<and> txe_recurs (regs example_state)
   \<and> (0 :: u32) AND 1 = 0 \<and> (1 :: u32) AND 1 = 1 \<and> [1, 1 :: u32] \<noteq> [] \<and> [0 :: u32] \<noteq> []
   \<and> map_option (\<lambda>s. GPIOE_ODR (regs s)) (main_loop ([0] @ [1, 1] @ [0]) example_state) = Some 0x200
   \<and> map_option (\<lambda>s. GPIOE_ODR (regs s))
        (main_loop (([0] @ [1, 1] @ [0]) @ ([0] @ [1, 1] @ [0])) example_state) = Some 0"
proof -
  have 1: "button_is_pressed example_state = 0" by (simp add: example_state_def)
  have 2: "txe_recurs (regs example_state)" using txe_recurs_example by (simp add: example_state_def)
  have 3: "\<forall>x\<in>set [0 :: u32]. x AND 1 = 0" by simp
  have 4: "\<forall>x\<in>set [1, 1 :: u32]. x AND 1 = 1" by simp
  have 5: "[1, 1 :: u32] \<noteq> []" by simp
  have 6: "[0 :: u32] \<noteq> []" by simp
  have 7: "GPIOE_ODR (regs example_state) = 0" by (simp add: example_state_def example_hw_def)
  from led_toggle_involution [OF 1 2 3 4 5 3 6 3 4 5 3 6] obtain s1 s2 where
    "main_loop ([0] @ [1, 1] @ [0]) example_state = Some s1"
    "main_loop (([0] @ [1, 1] @ [0]) @ ([0] @ [1, 1] @ [0])) example_state = Some s2"
    "GPIOE_ODR (regs s1) = GPIOE_ODR (regs example_state) XOR push_bit 9 1"
    "GPIOE_ODR (regs s2) = GPIOE_ODR (regs example_state)" by blast
  then have "map_option (\<lambda>s. GPIOE_ODR (regs s)) (main_loop ([0] @ [1, 1] @ [0]) example_state) = Some 0x200"
    "map_option (\<lambda>s. GPIOE_ODR (regs s))
        (main_loop (([0] @ [1, 1] @ [0]) @ ([0] @ [1, 1] @ [0])) example_state) = Some 0"
    using 7 by simp_all
  with 1 2 show ?thesis by simp
qed

text \<open>
  C8. \<open>button_is_pressed\<close> is 0 when \<open>main\<close> enters the loop, and after every iteration that
  completes it equals the level that iteration sampled; on a UART that keeps reporting
  TXE every iteration completes.
\<close>

theorem button_flag_invariant:
  "(\<forall>s0. main_init h = Some s0 \<longrightarrow>
      button_is_pressed s0 = 0
      \<and> (\<forall>idrs idr s'. main_loop (idrs @ [idr]) s0 = Some s' \<longrightarrow>
            button_is_pressed s' = uint (idr AND 1)))
   \<and> (txe_recurs h \<longrightarrow> (\<exists>s0. main_init h = Some s0 \<and> (\<forall>idrs. \<exists>s'. main_loop idrs s0 = Some s')))"
proof (intro conjI allI impI)
  fix s0 assume "main_init h = Some s0"
  then show "button_is_pressed s0 = 0" by (rule main_init_flag)
next
  fix s0 idrs idr s'
  assume "main_init h = Some s0" and run: "main_loop (idrs @ [idr]) s0 = Some s'"
  then have "button_is_pressed s0 = 0 \<or> button_is_pressed s0 = 1" by (simp add: main_init_flag)
  with run show "button_is_pressed s' = uint (idr AND 1)" by (rule loop_flag)
next
  assume "txe_recurs h"
  from main_init_total[OF this] obtain s0 where 1: "main_init h = Some s0" and 2: "txe_recurs (regs s0)"
    using \<open>txe_recurs h\<close> by (auto simp add: txe_recurs_def)
  from 2 have "\<forall>idrs. \<exists>s'. main_loop idrs s0 = Some s'" by (simp add: main_loop_total)
  with 1 show "\<exists>s0. main_init h = Some s0 \<and> (\<forall>idrs. \<exists>s'. main_loop idrs s0 = Some s')" by blast
qed

theorem button_flag_invariant_witness:
  "txe_recurs example_hw
   \<and> (\<exists>s0 s'. main_init example_hw = Some s0 \<and> button_is_pressed s0 = 0
        \<and> main_loop ([1, 0, 2] @ [3]) s0 = Some s' \<and> button_is_pressed s' = 1)"
proof -
  note t = button_flag_invariant [of example_hw]
  from t txe_recurs_example obtain s0 where 1: "main_init example_hw = Some s0"
    and 2: "\<forall>idrs. \<exists>s'. main_loop idrs s0 = Some s'" by blast
  from 2 obtain s' where 3: "main_loop ([1, 0, 2] @ [3]) s0 = Some s'" by blast
  from t 1 have 4: "button_is_pressed s0 = 0" by blast
  from t 1 3 have "button_is_pressed s' = uint ((3 :: u32) AND 1)" by blast
  then have 5: "button_is_pressed s' = 1" by simp
  from txe_recurs_example 1 3 4 5 show ?thesis by blast
qed

end
